theory Spec2Isabelle
  imports Complex_Main "HOL-Library.Sublist"
begin

section \<open>Normalized path segments\<close>

text \<open>
  The flattener consumes the result of \<^verbatim>\<open>elem.getPathData({ normalize: true })\<close>: an array
  of objects \<^verbatim>\<open>{type, values}\<close> whose type is one of M, L, C, Z, with absolute coordinates
  and 2, 2, 6 and 0 values. The tagged object is a datatype here; \<open>seg_values\<close> is its
  \<^verbatim>\<open>values\<close> array. JavaScript numbers are modelled by \<open>real\<close> (finite, no rounding);
  the non-finite values the code can compute itself are written out where they arise.
\<close>

datatype seg =
    M real real
  | L real real
  | C real real real real real real
  | Z

fun seg_values :: "seg \<Rightarrow> real list" where
  "seg_values (M x y) = [x, y]"
| "seg_values (L x y) = [x, y]"
| "seg_values (C x1 y1 x2 y2 x y) = [x1, y1, x2, y2, x, y]"
| "seg_values Z = []"

fun isC :: "seg \<Rightarrow> bool" where
  "isC (C x1 y1 x2 y2 x y) = True"
| "isC s = False"

text \<open>\<^verbatim>\<open>values.slice(-2)\<close>: the last two entries, or all of them when there are fewer.\<close>

definition slice_last2 :: "real list \<Rightarrow> real list" where
  "slice_last2 vs = drop (length vs - 2) vs"

section \<open>The host's path geometry\<close>

text \<open>
  The code builds a temporary path element with the attribute
  \<^verbatim>\<open>d = `M ${lastSegCoords}C${seg.values.join(',')}`\<close> and asks the browser for
  \<^verbatim>\<open>getTotalLength()\<close> and \<^verbatim>\<open>getPointAtLength(d)\<close>. Both belong to the host, not to this
  repository, so they are parameters: functions of the two value lists that make up the
  attribute (the anchor \<^verbatim>\<open>lastSeg.values.slice(-2)\<close> and the curve's six values).
\<close>

record host =
  getTotalLength :: "real list \<Rightarrow> real list \<Rightarrow> real"
  getPointAtLength :: "real list \<Rightarrow> real list \<Rightarrow> real \<Rightarrow> real \<times> real"
  stringToNumber :: "string \<Rightarrow> real option"

text \<open>
  \<open>stringToNumber\<close> is the language's conversion of a string to a number (\<open>None\<close> is
  NaN), which d3 applies to the ends of a scale's domain.
\<close>

section \<open>Numbers of the sampling loop\<close>

text \<open>
  \<^verbatim>\<open>tmpPathLength = Math.ceil(tmpPath.getTotalLength())\<close> is an integer. The step
  \<^verbatim>\<open>Math.ceil(tmpPathLength / complexity)\<close> is an integer too unless \<^verbatim>\<open>complexity\<close> is 0,
  where JavaScript's division yields Infinity, -Infinity or NaN (0 / 0).
\<close>

datatype jsnum = Num int | PosInf | NegInf | NaN

definition lengthStepOf :: "int \<Rightarrow> int \<Rightarrow> jsnum" where
  "lengthStepOf tmpPathLength complexity =
     (if complexity = 0
      then (if 0 < tmpPathLength then PosInf
            else if tmpPathLength < 0 then NegInf else NaN)
      else Num \<lceil>real_of_int tmpPathLength / real_of_int complexity\<rceil>)"

text \<open>\<^verbatim>\<open>!n\<close> on a number: true for 0 (and -0) and NaN.\<close>

fun js_not :: "jsnum \<Rightarrow> bool" where
  "js_not (Num n) = (n = 0)"
| "js_not NaN = True"
| "js_not PosInf = False"
| "js_not NegInf = False"

text \<open>\<^verbatim>\<open>d <= len\<close> with \<^verbatim>\<open>len\<close> an integer, and \<^verbatim>\<open>d += lengthStep\<close>.\<close>

fun js_le :: "jsnum \<Rightarrow> int \<Rightarrow> bool" where
  "js_le (Num a) len = (a \<le> len)"
| "js_le NegInf len = True"
| "js_le PosInf len = False"
| "js_le NaN len = False"

fun js_add :: "jsnum \<Rightarrow> jsnum \<Rightarrow> jsnum" where
  "js_add (Num a) (Num b) = Num (a + b)"
| "js_add NaN b = NaN"
| "js_add a NaN = NaN"
| "js_add PosInf NegInf = NaN"
| "js_add NegInf PosInf = NaN"
| "js_add PosInf b = PosInf"
| "js_add NegInf b = NegInf"
| "js_add (Num a) PosInf = PosInf"
| "js_add (Num a) NegInf = NegInf"

section \<open>reducePathSegCurveComplexity\<close>

text \<open>
  The only exception the function can raise is the runtime's TypeError: reading
  \<^verbatim>\<open>lastSeg.values\<close> while \<^verbatim>\<open>lastSeg\<close> is still undefined, or passing a non-finite
  distance to \<^verbatim>\<open>getPointAtLength\<close>, whose argument is a restricted float.
\<close>

datatype error = TypeError

text \<open>
  The loop \<^verbatim>\<open>for (d = lengthStep, len = tmpPathLength; d <= len; d += lengthStep)\<close>, pushing
  one L per round (\<open>pointSeg\<close> is the object literal
  \<^verbatim>\<open>{type: 'L', values: [point.x, point.y]}\<close>). It need not terminate, so it is a partial
  function: \<open>None\<close> is a run that never returns, \<open>Some (Inl e)\<close> a raised exception,
  \<open>Some (Inr segs)\<close> the array \<^verbatim>\<open>newSegs\<close> when the loop is left.
\<close>

definition pointSeg :: "real \<times> real \<Rightarrow> seg" where
  "pointSeg point = L (fst point) (snd point)"

partial_function (option) sampleLoop ::
  "(real \<Rightarrow> real \<times> real) \<Rightarrow> jsnum \<Rightarrow> int \<Rightarrow> jsnum \<Rightarrow> seg list \<Rightarrow> (error + seg list) option"
where
  "sampleLoop pointAt lengthStep len d newSegs =
     (if js_le d len
      then (case d of
              Num n \<Rightarrow>
                sampleLoop pointAt lengthStep len (js_add d lengthStep)
                  (newSegs @ [pointSeg (pointAt (real_of_int n))])
            | PosInf \<Rightarrow> Some (Inl TypeError)
            | NegInf \<Rightarrow> Some (Inl TypeError)
            | NaN \<Rightarrow> Some (Inl TypeError))
      else Some (Inr newSegs))"

text \<open>
  The body of the \<^verbatim>\<open>forEach\<close> callback on the state \<^verbatim>\<open>(newSegs, lastSeg)\<close>. The early
  \<^verbatim>\<open>return\<close> of a zero-length curve leaves the callback before \<^verbatim>\<open>lastSeg = seg\<close>.
\<close>

definition segBody ::
  "host \<Rightarrow> int \<Rightarrow> seg list \<times> seg option \<Rightarrow> seg \<Rightarrow> (error + seg list \<times> seg option) option"
where
  "segBody h complexity st seg =
     (case st of (newSegs, lastSeg) \<Rightarrow>
      if isC seg then
        (case lastSeg of
           None \<Rightarrow> Some (Inl TypeError)
         | Some ls \<Rightarrow>
             let lastSegCoords = slice_last2 (seg_values ls);
                 tmpPathLength = \<lceil>getTotalLength h lastSegCoords (seg_values seg)\<rceil>;
                 lengthStep = lengthStepOf tmpPathLength complexity
             in if tmpPathLength = 0 \<or> js_not lengthStep then Some (Inr (newSegs, lastSeg))
                else
                  (case sampleLoop (getPointAtLength h lastSegCoords (seg_values seg))
                          lengthStep tmpPathLength lengthStep newSegs of
                     None \<Rightarrow> None
                   | Some (Inl e) \<Rightarrow> Some (Inl e)
                   | Some (Inr segs) \<Rightarrow>
                       Some (Inr (segs @ [L (seg_values seg ! 4) (seg_values seg ! 5)],
                                  Some seg))))
      else Some (Inr (newSegs @ [seg], Some seg)))"

fun forEachSeg ::
  "host \<Rightarrow> int \<Rightarrow> seg list \<Rightarrow> seg list \<times> seg option \<Rightarrow> (error + seg list) option"
where
  "forEachSeg h complexity [] st = Some (Inr (fst st))"
| "forEachSeg h complexity (seg # rest) st =
     (case segBody h complexity st seg of
        None \<Rightarrow> None
      | Some (Inl e) \<Rightarrow> Some (Inl e)
      | Some (Inr st') \<Rightarrow> forEachSeg h complexity rest st')"

definition reducePathSegCurveComplexity ::
  "host \<Rightarrow> seg list \<Rightarrow> int \<Rightarrow> (error + seg list) option"
where
  "reducePathSegCurveComplexity h pathSegList complexity =
     forEachSeg h complexity pathSegList ([], None)"


section \<open>The document\<close>

text \<open>
  What the code reads of the document: of an element its \<^verbatim>\<open>tagName\<close>, its attributes
  (\<^verbatim>\<open>getAttribute\<close> yields null, here \<open>None\<close>, for a missing one) and its normalized path
  data; of the svg node its attributes and the elements that
  \<^verbatim>\<open>querySelectorAll('path, rect, polygon, circle, ellipse, polyline')\<close> finds, in document
  order.
\<close>

record element =
  tagName :: string
  getAttribute :: "string \<rightharpoonup> string"
  getPathData :: "seg list"

record svgNode =
  svgAttribute :: "string \<rightharpoonup> string"
  querySelectorAll :: "element list"

section \<open>getSVGDimensions\<close>

text \<open>
  \<^verbatim>\<open>parseInt(string, 10)\<close>: skip leading white space, read an optional sign, then the
  longest run of decimal digits; NaN (\<open>None\<close>) when there is no digit. Characters are
  bytes here, so white space is the ASCII part of the language's white space.
\<close>

definition isWhiteSpace :: "char \<Rightarrow> bool" where
  "isWhiteSpace c = (of_char c \<in> {9, 10, 11, 12, 13, 32 :: nat})"

definition isDigit :: "char \<Rightarrow> bool" where
  "isDigit c = (48 \<le> (of_char c :: nat) \<and> (of_char c :: nat) \<le> 57)"

definition digitsValue :: "string \<Rightarrow> nat" where
  "digitsValue ds = foldl (\<lambda>acc c. 10 * acc + (of_char c - 48)) 0 ds"

definition parseInt :: "string \<Rightarrow> int option" where
  "parseInt inputString =
     (let S = dropWhile isWhiteSpace inputString;
          sign = (if S \<noteq> [] \<and> hd S = CHR ''-'' then - 1 else 1 :: int);
          S' = (if S \<noteq> [] \<and> (hd S = CHR ''+'' \<or> hd S = CHR ''-'') then tl S else S);
          digits = takeWhile isDigit S'
      in if digits = [] then None else Some (sign * int (digitsValue digits)))"

text \<open>
  \<^verbatim>\<open>getAttribute\<close> yields null for a missing attribute, and \<^verbatim>\<open>parseInt(null)\<close> parses the
  string "null".
\<close>

definition parseIntAttr :: "string option \<Rightarrow> int option" where
  "parseIntAttr a = (case a of None \<Rightarrow> parseInt ''null'' | Some s \<Rightarrow> parseInt s)"

text \<open>
  \<^verbatim>\<open>viewBox.replace(/^0-9/g, '')\<close> removes the three characters "0-9" from the start of
  the string, when it starts with them; the result is a string, and so is its
  \<^verbatim>\<open>typeof\<close>.
\<close>

definition replace_0_9 :: "string \<Rightarrow> string" where
  "replace_0_9 s = (if take 3 s = ''0-9'' then drop 3 s else s)"

datatype jstype = TNumber | TString

definition typeof_string :: "string \<Rightarrow> jstype" where
  "typeof_string s = TString"

text \<open>\<^verbatim>\<open>viewBox.split(/\s+/)\<close>: the pieces between maximal runs of white space.\<close>

function split_ws :: "string \<Rightarrow> string list" where
  "split_ws s =
     (case dropWhile (\<lambda>c. \<not> isWhiteSpace c) s of
        [] \<Rightarrow> [s]
      | r # rest \<Rightarrow> takeWhile (\<lambda>c. \<not> isWhiteSpace c) s # split_ws (dropWhile isWhiteSpace rest))"
  by pat_completeness auto
termination
proof (relation "measure length")
  show "wf (measure length)" by simp
next
  fix s :: string and r rest
  assume a: "dropWhile (\<lambda>c. \<not> isWhiteSpace c) s = r # rest"
  have "length (dropWhile isWhiteSpace rest) \<le> length rest"
    by (rule length_dropWhile_le)
  moreover have "length (r # rest) \<le> length s"
    using length_dropWhile_le[of "\<lambda>c. \<not> isWhiteSpace c" s] a by simp
  ultimately show "(dropWhile isWhiteSpace rest, s) \<in> measure length" by simp
qed

text \<open>
  The width and height the function returns: the number \<^verbatim>\<open>parseInt\<close> gave, or an entry
  of the split viewBox (a string, or undefined past the end of the array).
\<close>

datatype dimval = DNum int | DStr string | DUndef

definition js_index :: "string list \<Rightarrow> nat \<Rightarrow> dimval" where
  "js_index wh i = (if i < length wh then DStr (wh ! i) else DUndef)"

text \<open>The result: \<^verbatim>\<open>false\<close>, or the object \<^verbatim>\<open>{ width, height }\<close>.\<close>

datatype dims = NoDims | Dims dimval dimval

text \<open>
  The function reads three attributes of the node. \<^verbatim>\<open>typeof width !== 'number'\<close> is false
  for every result of \<^verbatim>\<open>parseInt\<close>, which leaves the two \<^verbatim>\<open>isNaN\<close> tests.
  \<^verbatim>\<open>!viewBox\<close> holds for null and for the empty string.
\<close>

definition getSVGDimensions :: "svgNode \<Rightarrow> dims" where
  "getSVGDimensions node =
     (let width = parseIntAttr (svgAttribute node ''width'');
          height = parseIntAttr (svgAttribute node ''height'')
      in if width = None \<or> height = None then
           (case svgAttribute node ''viewBox'' of
              None \<Rightarrow> NoDims
            | Some viewBox \<Rightarrow>
                if viewBox = [] \<or> typeof_string (replace_0_9 viewBox) \<noteq> TNumber then NoDims
                else let wh = split_ws viewBox in Dims (js_index wh 2) (js_index wh 3))
         else Dims (DNum (the width)) (DNum (the height)))"

text \<open>
  The resolver as the specification words it, for comparison: declared width and height
  when both parse as positive numbers, else the third and fourth of the four numbers
  of the viewBox, else the failure MissingDimensions. The specification does not fix
  the syntax of a number; decimal integers are read with \<open>parseInt\<close> here.
\<close>

datatype spec_dims = MissingDimensions | Dimensions int int

definition spec_positive :: "string option \<Rightarrow> int option" where
  "spec_positive a =
     (case a of
        None \<Rightarrow> None
      | Some s \<Rightarrow> (case parseInt s of None \<Rightarrow> None | Some n \<Rightarrow> if 0 < n then Some n else None))"

definition spec_viewBox :: "string option \<Rightarrow> spec_dims" where
  "spec_viewBox vb =
     (case vb of
        None \<Rightarrow> MissingDimensions
      | Some s \<Rightarrow>
          (let wh = filter (\<lambda>w. w \<noteq> []) (split_ws s)
           in if length wh = 4 \<and> list_all (\<lambda>w. parseInt w \<noteq> None) wh
              then (case (spec_positive (Some (wh ! 2)), spec_positive (Some (wh ! 3))) of
                      (Some w, Some h) \<Rightarrow> Dimensions w h
                    | _ \<Rightarrow> MissingDimensions)
              else MissingDimensions))"

definition spec_resolve :: "string option \<Rightarrow> string option \<Rightarrow> string option \<Rightarrow> spec_dims" where
  "spec_resolve declaredWidth declaredHeight viewBox =
     (case (spec_positive declaredWidth, spec_positive declaredHeight) of
        (Some w, Some h) \<Rightarrow> Dimensions w h
      | _ \<Rightarrow> spec_viewBox viewBox)"


section \<open>The projection\<close>

text \<open>
  Modelled from the spec: \<^verbatim>\<open>scaleLinear\<close> of the d3-scale package, which the source imports
  and which is not part of this repository. A scale with domain \<open>[d0, d1]\<close> and range
  \<open>[r0, r1]\<close> is the linear, unclamped map that takes \<open>d0\<close> to \<open>r0\<close> and \<open>d1\<close> to
  \<open>r1\<close>; values outside the domain extrapolate. d3-scale 1.x normalizes from the lower
  end of the domain, yields the start of the range for a domain of width zero, and NaN
  (\<open>None\<close>) when the end of the domain or the argument is not a number.
\<close>

definition scaleLinear :: "real \<times> real option \<Rightarrow> real \<times> real \<Rightarrow> real option \<Rightarrow> real option" where
  "scaleLinear domain rng x =
     (case (domain, rng) of
        ((d0, None), (r0, r1)) \<Rightarrow> None
      | ((d0, Some d1), (r0, r1)) \<Rightarrow>
          if d1 < d0 then map_option (\<lambda>v. r1 + (r0 - r1) * ((v - d1) / (d0 - d1))) x
          else if d1 - d0 \<noteq> 0 then map_option (\<lambda>v. r0 + (r1 - r0) * ((v - d0) / (d1 - d0))) x
          else Some r0)"

text \<open>
  The bounds are \<^verbatim>\<open>[[north, east], [south, west]]\<close>: \<^verbatim>\<open>ne = bounds[0]\<close>, \<^verbatim>\<open>sw = bounds[1]\<close>,
  each entry read through \<^verbatim>\<open>parseFloat\<close> and taken as a finite number here.
\<close>

type_synonym bounds = "(real \<times> real) \<times> (real \<times> real)"

text \<open>
  \<^verbatim>\<open>mapX = scaleLinear().range([sw[1], ne[1]])\<close> with \<^verbatim>\<open>domain([0, svgDims.width])\<close>, and
  \<^verbatim>\<open>mapY = scaleLinear().range([ne[0], sw[0]])\<close> with \<^verbatim>\<open>domain([0, svgDims.height])\<close>.
\<close>

definition mapX :: "bounds \<Rightarrow> real option \<Rightarrow> real option \<Rightarrow> real option" where
  "mapX bounds width = scaleLinear (0, width) (snd (snd bounds), snd (fst bounds))"

definition mapY :: "bounds \<Rightarrow> real option \<Rightarrow> real option \<Rightarrow> real option" where
  "mapY bounds height = scaleLinear (0, height) (fst (fst bounds), fst (snd bounds))"

text \<open>
  \<^verbatim>\<open>svgDims.width\<close> and \<^verbatim>\<open>svgDims.height\<close> as d3 reads them: a property of \<^verbatim>\<open>false\<close> is
  undefined, and undefined converts to NaN.
\<close>

definition dimNumber :: "host \<Rightarrow> dimval \<Rightarrow> real option" where
  "dimNumber h v =
     (case v of DNum n \<Rightarrow> Some (real_of_int n) | DStr s \<Rightarrow> stringToNumber h s | DUndef \<Rightarrow> None)"

definition dimsWidth :: "host \<Rightarrow> dims \<Rightarrow> real option" where
  "dimsWidth h svgDims = (case svgDims of NoDims \<Rightarrow> None | Dims w ht \<Rightarrow> dimNumber h w)"

definition dimsHeight :: "host \<Rightarrow> dims \<Rightarrow> real option" where
  "dimsHeight h svgDims = (case svgDims of NoDims \<Rightarrow> None | Dims w ht \<Rightarrow> dimNumber h ht)"

section \<open>svgToGeoJson\<close>

text \<open>\<^verbatim>\<open>values[i]\<close>: undefined (\<open>None\<close>) past the end of the array.\<close>

definition js_nth :: "real list \<Rightarrow> nat \<Rightarrow> real option" where
  "js_nth vs i = (if i < length vs then Some (vs ! i) else None)"

text \<open>
  The callback of \<^verbatim>\<open>pathData.map\<close>: for a Z the first two values of \<^verbatim>\<open>pathData[0]\<close>, else
  the first two values of the item. It runs on the items of \<^verbatim>\<open>pathData\<close> only, so
  \<^verbatim>\<open>pathData[0]\<close> exists whenever it is read.
\<close>

definition coordOf :: "seg list \<Rightarrow> seg \<Rightarrow> real option \<times> real option" where
  "coordOf pathData pathitem =
     (if pathitem = Z then
        (case pathData of
           [] \<Rightarrow> (None, None)
         | p0 # ps \<Rightarrow> (js_nth (seg_values p0) 0, js_nth (seg_values p0) 1))
      else (js_nth (seg_values pathitem) 0, js_nth (seg_values pathitem) 1))"

type_synonym position = "real option \<times> real option"

datatype geometry = LineString "position list" | Polygon "position list list"

record feature =
  properties :: "string \<rightharpoonup> string"
  geometry :: geometry

text \<open>
  \<^verbatim>\<open>attributes.forEach\<close>: \<^verbatim>\<open>if (value) properties[attr] = value\<close>, where a null and an
  empty string are both falsy. \<^verbatim>\<open>properties\<close> is a plain object, here the map of its own
  keys: the assignment creates or overwrites the key \<^verbatim>\<open>attr\<close>, except for the name
  \<^verbatim>\<open>__proto__\<close>, where it goes to the setter the object inherits, which ignores a string
  and stores nothing.
\<close>

definition collectProperties :: "element \<Rightarrow> string list \<Rightarrow> (string \<rightharpoonup> string)" where
  "collectProperties elem attributes =
     foldl (\<lambda>props attr.
              (case getAttribute elem attr of
                 None \<Rightarrow> props
               | Some v \<Rightarrow>
                   if v \<noteq> [] then (if attr = ''__proto__'' then props else props(attr \<mapsto> v))
                   else props))
       Map.empty attributes"

text \<open>The projected first two values of a segment.\<close>

definition projectValues :: "host \<Rightarrow> bounds \<Rightarrow> dims \<Rightarrow> seg \<Rightarrow> position" where
  "projectValues h bounds svgDims s =
     (mapX bounds (dimsWidth h svgDims) (js_nth (seg_values s) 0),
      mapY bounds (dimsHeight h svgDims) (js_nth (seg_values s) 1))"

definition mappedCoordsOf :: "host \<Rightarrow> bounds \<Rightarrow> dims \<Rightarrow> seg list \<Rightarrow> position list" where
  "mappedCoordsOf h bounds svgDims pathData =
     (let coords = map (coordOf pathData) pathData
      in map (\<lambda>coord. (mapX bounds (dimsWidth h svgDims) (fst coord),
                        mapY bounds (dimsHeight h svgDims) (snd coord))) coords)"

text \<open>The body of \<^verbatim>\<open>elems.forEach\<close>: the feature of one element.\<close>

definition elemFeature ::
  "host \<Rightarrow> bounds \<Rightarrow> dims \<Rightarrow> int \<Rightarrow> string list \<Rightarrow> element \<Rightarrow> (error + feature) option"
where
  "elemFeature h bounds svgDims complexity attributes elem =
     (case reducePathSegCurveComplexity h (getPathData elem) complexity of
        None \<Rightarrow> None
      | Some (Inl e) \<Rightarrow> Some (Inl e)
      | Some (Inr pathData) \<Rightarrow>
          let mappedCoords = mappedCoordsOf h bounds svgDims pathData
          in Some (Inr \<lparr> properties = collectProperties elem attributes,
                         geometry = (if tagName elem = ''polyline'' then LineString mappedCoords
                                     else Polygon [mappedCoords]) \<rparr>))"

fun forEachElem ::
  "host \<Rightarrow> bounds \<Rightarrow> dims \<Rightarrow> int \<Rightarrow> string list \<Rightarrow> element list \<Rightarrow> feature list
     \<Rightarrow> (error + feature list) option"
where
  "forEachElem h bounds svgDims complexity attributes [] features = Some (Inr features)"
| "forEachElem h bounds svgDims complexity attributes (elem # rest) features =
     (case elemFeature h bounds svgDims complexity attributes elem of
        None \<Rightarrow> None
      | Some (Inl e) \<Rightarrow> Some (Inl e)
      | Some (Inr f) \<Rightarrow>
          forEachElem h bounds svgDims complexity attributes rest (features @ [f]))"

definition svgToGeoJson ::
  "host \<Rightarrow> bounds \<Rightarrow> svgNode \<Rightarrow> int \<Rightarrow> string list \<Rightarrow> (error + feature list) option"
where
  "svgToGeoJson h bounds node complexity attributes =
     forEachElem h bounds (getSVGDimensions node) complexity attributes
       (querySelectorAll node) []"

section \<open>The flattener on a store of objects\<close>

text \<open>
  The function builds its result in a new array, pushes new objects for the lines of a
  curve, and pushes the segment objects of the input themselves for everything else. To
  state what it writes and what it leaves alone, the same function is written once more
  over a store: a segment object (with its \<^verbatim>\<open>values\<close>) or an array of references lives in
  a cell, a variable holds a reference, and an object or array literal takes the next
  unused cell.
\<close>

type_synonym ref = nat

datatype obj = SegObj seg | ArrObj "ref list"

record store =
  cells :: "ref \<rightharpoonup> obj"
  fresh :: ref

text \<open>An object or array literal: a new cell. \<^verbatim>\<open>arr.push(r)\<close>: the array in cell \<open>arr\<close> grows.\<close>

definition alloc :: "obj \<Rightarrow> store \<Rightarrow> ref \<times> store" where
  "alloc ob st = (fresh st, st\<lparr> cells := (cells st)(fresh st \<mapsto> ob), fresh := Suc (fresh st) \<rparr>)"

definition push :: "ref \<Rightarrow> ref \<Rightarrow> store \<Rightarrow> store" where
  "push arr r st =
     (case cells st arr of
        Some (ArrObj rs) \<Rightarrow> st\<lparr> cells := (cells st)(arr \<mapsto> ArrObj (rs @ [r])) \<rparr>
      | _ \<Rightarrow> st)"

text \<open>The sampling loop: each round creates one L object and pushes it to \<^verbatim>\<open>newSegs\<close>.\<close>

partial_function (option) sampleLoopS ::
  "(real \<Rightarrow> real \<times> real) \<Rightarrow> jsnum \<Rightarrow> int \<Rightarrow> jsnum \<Rightarrow> ref \<Rightarrow> store \<Rightarrow> (error + store) option"
where
  "sampleLoopS pointAt lengthStep len d newSegs st =
     (if js_le d len
      then (case d of
              Num n \<Rightarrow>
                sampleLoopS pointAt lengthStep len (js_add d lengthStep) newSegs
                  (push newSegs (fst (alloc (SegObj (pointSeg (pointAt (real_of_int n)))) st))
                     (snd (alloc (SegObj (pointSeg (pointAt (real_of_int n)))) st)))
            | PosInf \<Rightarrow> Some (Inl TypeError)
            | NegInf \<Rightarrow> Some (Inl TypeError)
            | NaN \<Rightarrow> Some (Inl TypeError))
      else Some (Inr st))"

text \<open>
  The callback reads the object behind the reference it is given, and the one behind
  \<^verbatim>\<open>lastSeg\<close>. An object that is no segment has no type \<^verbatim>\<open>'C'\<close> and is pushed as it is;
  reading \<^verbatim>\<open>values\<close> of a missing \<^verbatim>\<open>lastSeg\<close>, or \<^verbatim>\<open>slice\<close> of the missing values of an
  array, is a TypeError.
\<close>

definition segBodyS ::
  "host \<Rightarrow> int \<Rightarrow> ref \<Rightarrow> store \<times> ref option \<Rightarrow> ref \<Rightarrow> (error + store \<times> ref option) option"
where
  "segBodyS h complexity newSegs stl r =
     (case stl of (st, lastSeg) \<Rightarrow>
      (case cells st r of
         None \<Rightarrow> Some (Inl TypeError)
       | Some (ArrObj rs) \<Rightarrow> Some (Inr (push newSegs r st, Some r))
       | Some (SegObj seg) \<Rightarrow>
          if isC seg then
            (case lastSeg of
               None \<Rightarrow> Some (Inl TypeError)
             | Some lr \<Rightarrow>
                 (case cells st lr of
                    Some (SegObj ls) \<Rightarrow>
                      let lastSegCoords = slice_last2 (seg_values ls);
                          tmpPathLength = \<lceil>getTotalLength h lastSegCoords (seg_values seg)\<rceil>;
                          lengthStep = lengthStepOf tmpPathLength complexity
                      in if tmpPathLength = 0 \<or> js_not lengthStep then Some (Inr (st, lastSeg))
                         else
                           (case sampleLoopS (getPointAtLength h lastSegCoords (seg_values seg))
                                   lengthStep tmpPathLength lengthStep newSegs st of
                              None \<Rightarrow> None
                            | Some (Inl e) \<Rightarrow> Some (Inl e)
                            | Some (Inr st1) \<Rightarrow>
                                let a = alloc (SegObj (L (seg_values seg ! 4) (seg_values seg ! 5))) st1
                                in Some (Inr (push newSegs (fst a) (snd a), Some r)))
                  | _ \<Rightarrow> Some (Inl TypeError)))
          else Some (Inr (push newSegs r st, Some r))))"

text \<open>
  \<^verbatim>\<open>pathSegList.forEach\<close> visits the indices below the length the array had at the start,
  and reads the array anew at each index; an index the array no longer has is skipped.
\<close>

fun forEachS ::
  "host \<Rightarrow> int \<Rightarrow> ref \<Rightarrow> ref \<Rightarrow> nat list \<Rightarrow> store \<times> ref option
     \<Rightarrow> (error + store \<times> ref option) option"
where
  "forEachS h complexity pathSegList newSegs [] stl = Some (Inr stl)"
| "forEachS h complexity pathSegList newSegs (k # ks) stl =
     (case cells (fst stl) pathSegList of
        Some (ArrObj rs) \<Rightarrow>
          if k < length rs then
            (case segBodyS h complexity newSegs stl (rs ! k) of
               None \<Rightarrow> None
             | Some (Inl e) \<Rightarrow> Some (Inl e)
             | Some (Inr stl') \<Rightarrow> forEachS h complexity pathSegList newSegs ks stl')
          else forEachS h complexity pathSegList newSegs ks stl
      | _ \<Rightarrow> Some (Inl TypeError))"

definition reduceOnStore ::
  "host \<Rightarrow> ref \<Rightarrow> int \<Rightarrow> store \<Rightarrow> (error + ref \<times> store) option"
where
  "reduceOnStore h pathSegList complexity st =
     (let a = alloc (ArrObj []) st; newSegs = fst a in
      case cells (snd a) pathSegList of
        Some (ArrObj rs) \<Rightarrow>
          (case forEachS h complexity pathSegList newSegs [0..<length rs] (snd a, None) of
             None \<Rightarrow> None
           | Some (Inl e) \<Rightarrow> Some (Inl e)
           | Some (Inr stl) \<Rightarrow> Some (Inr (newSegs, fst stl)))
      | _ \<Rightarrow> Some (Inl TypeError))"

text \<open>
  What a run may do to the store, seen from the array \<open>a\<close> it pushes to: new cells may
  appear, the array \<open>a\<close> grows by the references \<open>new\<close>, every other cell that existed
  stays as it was. A reference is a curve if its cell holds a segment of type C.
\<close>

definition grows :: "ref \<Rightarrow> store \<Rightarrow> store \<Rightarrow> ref list \<Rightarrow> bool" where
  "grows a st st' new =
     (fresh st \<le> fresh st' \<and>
      (\<forall>r. r < fresh st \<and> r \<noteq> a \<longrightarrow> cells st' r = cells st r) \<and>
      (\<exists>out. cells st a = Some (ArrObj out) \<and> cells st' a = Some (ArrObj (out @ new))))"


text \<open>
  The link between the store and the lists of segments: the references \<open>rs\<close> point to
  the segments \<open>segs\<close>, one by one; and the variable \<^verbatim>\<open>lastSeg\<close> is undefined in both
  views, or a reference (not to the array \<open>a\<close>) to the segment it is in the other view.
\<close>

definition pointsTo :: "store \<Rightarrow> ref list \<Rightarrow> seg list \<Rightarrow> bool" where
  "pointsTo st rs segs = list_all2 (\<lambda>r s. cells st r = Some (SegObj s)) rs segs"

definition lastRel :: "store \<Rightarrow> ref \<Rightarrow> ref option \<Rightarrow> seg option \<Rightarrow> bool" where
  "lastRel st a lastRef lastSeg =
     (case lastRef of
        None \<Rightarrow> lastSeg = None
      | Some lr \<Rightarrow> lr < fresh st \<and> lr \<noteq> a \<and> (\<exists>ls. lastSeg = Some ls \<and> cells st lr = Some (SegObj ls)))"

text \<open>A store for a concrete run: the path \<^verbatim>\<open>M 0,0 C 0,0 10,0 10,0 Z\<close> in the cells 0 to 3.\<close>

definition exampleStore :: store where
  "exampleStore =
     \<lparr> cells = [0 \<mapsto> SegObj (M 0 0), 1 \<mapsto> SegObj (C 0 0 10 0 10 0), 2 \<mapsto> SegObj Z,
                3 \<mapsto> ArrObj [0, 1, 2]],
       fresh = 4 \<rparr>"

section \<open>Hosts for concrete runs\<close>

text \<open>
  The geometry of two families of curves is known in closed form. A curve
  \<^verbatim>\<open>M x0,y0 C x1,y0 x2,y0 x,y0\<close> whose control points lie between its ends, in order, is
  the straight segment from \<open>(x0, y0)\<close> to \<open>(x, y0)\<close>, run through once: its length is
  \<open>\<bar>x - x0\<bar>\<close> and its point at distance \<open>d\<close> lies \<open>d\<close> from \<open>(x0, y0)\<close> towards
  \<open>(x, y0)\<close>, with \<open>d\<close> clamped to the path as browsers do. A path whose data does not
  parse (no anchor coordinates) is empty and has length 0.
\<close>

definition lineHost :: host where
  "lineHost =
     \<lparr> getTotalLength = (\<lambda>a v. case (a, v) of
          ([x0, y0], [x1, y1, x2, y2, x, y]) \<Rightarrow> \<bar>x - x0\<bar> | _ \<Rightarrow> 0),
       getPointAtLength = (\<lambda>a v d. case (a, v) of
          ([x0, y0], [x1, y1, x2, y2, x, y]) \<Rightarrow>
            (x0 + sgn (x - x0) * min (max d 0) \<bar>x - x0\<bar>, y0)
        | _ \<Rightarrow> (0, 0)),
       stringToNumber = (\<lambda>s. None) \<rparr>"

text \<open>
  A curve \<^verbatim>\<open>M 0,0 C c,0 c,0 0,0\<close> with \<open>c > 0\<close> is \<open>B(t) = (3 c t (1 - t), 0)\<close>: it runs
  from the origin to \<open>(3 c / 4, 0)\<close> and back, so its anchor equals its end point and
  its length is \<open>m = 3 c / 2\<close>; the point at distance \<open>d\<close> is \<open>(d, 0)\<close> on the way out
  and \<open>(m - d, 0)\<close> on the way back. \<open>backHost m\<close> is the host for the curve of length
  \<open>m\<close>.
\<close>

definition backHost :: "real \<Rightarrow> host" where
  "backHost m =
     \<lparr> getTotalLength = (\<lambda>a v. m),
       getPointAtLength = (\<lambda>a v d. (if d \<le> m / 2 then max d 0 else m - min d m, 0)),
       stringToNumber = (\<lambda>s. None) \<rparr>"





section \<open>The sampling loop\<close>

text \<open>
  With a positive integer step the loop returns after finitely many rounds: it samples
  at \<open>d\<close>, \<open>d + s\<close>, \<open>d + 2 s\<close>, ... while these do not exceed \<open>len\<close>.
\<close>

lemma sampleLoop_pos:
  assumes "0 < s"
  shows "sampleLoop p (Num s) len (Num d) acc =
     Some (Inr (acc @ map (\<lambda>i. pointSeg (p (real_of_int (d + int i * s))))
                        [0..<nat ((len - d) div s + 1)]))"
proof (induction "nat (len - d + 1)" arbitrary: d acc rule: less_induct)
  case less
  show ?case
  proof (cases "d \<le> len")
    case False
    then have "len - d < 0" by simp
    then have "(len - d) div s < 0" using assms by (simp add: pos_imp_zdiv_neg_iff)
    then have "nat ((len - d) div s + 1) = 0" by simp
    with False show ?thesis by (subst sampleLoop.simps) simp
  next
    case True
    have m: "nat (len - (d + s) + 1) < nat (len - d + 1)" using True assms by simp
    have k: "(len - d) div s = (len - (d + s)) div s + 1"
      using assms by (metis add_diff_cancel_right' diff_diff_eq2 div_add_self2 less_irrefl diff_add_eq diff_diff_eq)
    have k0: "0 \<le> (len - d) div s" using True assms by (simp add: pos_imp_zdiv_nonneg_iff)
    have n: "nat ((len - d) div s + 1) = Suc (nat ((len - (d + s)) div s + 1))"
      using k k0 by simp
    have "sampleLoop p (Num s) len (Num d) acc =
          sampleLoop p (Num s) len (Num (d + s)) (acc @ [pointSeg (p (real_of_int d))])"
      using True by (subst sampleLoop.simps) simp
    also have "\<dots> = Some (Inr ((acc @ [pointSeg (p (real_of_int d))]) @
          map (\<lambda>i. pointSeg (p (real_of_int (d + s + int i * s)))) [0..<nat ((len - (d + s)) div s + 1)]))"
      using less[OF m] .
    also have "(acc @ [pointSeg (p (real_of_int d))]) @
          map (\<lambda>i. pointSeg (p (real_of_int (d + s + int i * s)))) [0..<nat ((len - (d + s)) div s + 1)]
        = acc @ map (\<lambda>i. pointSeg (p (real_of_int (d + int i * s)))) [0..<nat ((len - d) div s + 1)]"
      unfolding n
      by (simp add: upt_conv_Cons map_Suc_upt[symmetric] algebra_simps del: upt_Suc)
    finally show ?thesis .
  qed
qed


lemma sampleLoop_NegInf: "sampleLoop p NegInf len NegInf acc = Some (Inl TypeError)"
  by (subst sampleLoop.simps) simp

lemma step_pos:
  assumes "1 \<le> n" "1 \<le> len"
  shows "1 \<le> \<lceil>real_of_int len / real_of_int n\<rceil>"
proof -
  have "0 < real_of_int len / real_of_int n" using assms by simp
  then show ?thesis by linarith
qed

text \<open>
  What one curve with an anchor contributes when the complexity and the rounded length
  are positive: the samples at the multiples of the step, then the end point.
\<close>

lemma segBody_curve:
  assumes a: "a = slice_last2 (seg_values ls)"
    and len: "\<lceil>getTotalLength h a [x1, y1, x2, y2, x, y]\<rceil> = len"
    and s: "\<lceil>real_of_int len / real_of_int n\<rceil> = s"
    and k: "nat (len div s) = k"
    and n: "1 \<le> n"
    and l1: "1 \<le> len"
  shows "segBody h n (newSegs, Some ls) (C x1 y1 x2 y2 x y) =
     Some (Inr (newSegs @
        map (\<lambda>i. pointSeg (getPointAtLength h a [x1, y1, x2, y2, x, y]
                  (real_of_int (int (Suc i) * s)))) [0..<k]
        @ [L x y], Some (C x1 y1 x2 y2 x y)))"
proof -
  have s1: "1 \<le> s" using step_pos[OF n l1] s by simp
  have step: "lengthStepOf len n = Num s" using n s by (simp add: lengthStepOf_def)
  have kk: "nat ((len - s) div s + 1) = k"
    using s1 k by (metis add.commute diff_add_cancel div_add_self1 less_irrefl not_one_le_zero order_less_le)
  have idx: "\<And>i. s + int i * s = int (Suc i) * s" by (simp add: algebra_simps)
  have loop: "sampleLoop p (Num s) len (Num s) newSegs =
      Some (Inr (newSegs @ map (\<lambda>i. pointSeg (p (real_of_int (int (Suc i) * s)))) [0..<k]))" for p
    using sampleLoop_pos[of s p len s newSegs] s1 by (simp only: kk idx)
  have "len \<noteq> 0" using l1 by simp
  moreover have "s \<noteq> 0" using s1 by simp
  ultimately show ?thesis
    unfolding segBody_def
    by (simp add: a[symmetric] len step loop Let_def del: of_int_mult of_nat_Suc)
qed

lemma segBody_other:
  "\<not> isC seg \<Longrightarrow> segBody h n (newSegs, lastSeg) seg = Some (Inr (newSegs @ [seg], Some seg))"
  by (simp add: segBody_def)

lemma lineHost_length:
  "getTotalLength lineHost [x0, y0] [x1, y1, x2, y2, x, y] = \<bar>x - x0\<bar>"
  by (simp add: lineHost_def)

lemma lineHost_point:
  "getPointAtLength lineHost [x0, y0] [x1, y1, x2, y2, x, y] d =
     (x0 + sgn (x - x0) * min (max d 0) \<bar>x - x0\<bar>, y0)"
  by (simp add: lineHost_def)



text \<open>
  The callback on a curve in the remaining cases: a rounded length of zero, a
  complexity of zero, a negative complexity.
\<close>

lemma segBody_skip:
  assumes "\<lceil>getTotalLength h (slice_last2 (seg_values ls)) [x1, y1, x2, y2, x, y]\<rceil> = 0"
  shows "segBody h n (newSegs, Some ls) (C x1 y1 x2 y2 x y) = Some (Inr (newSegs, Some ls))"
  using assms by (simp add: segBody_def Let_def)





lemma reduce_first:
  "\<not> isC seg \<Longrightarrow>
   reducePathSegCurveComplexity h (seg # rest) n = forEachSeg h n rest ([seg], Some seg)"
  by (simp add: reducePathSegCurveComplexity_def segBody_other)




lemma upt_0_3: "[0..<3] = [0, 1, 2]"
  by code_simp

lemma upt_0_5: "[0..<5] = [0, 1, 2, 3, 4]"
  by code_simp

lemma ceiling_half: "\<lceil>(1::real) / 2\<rceil> = 1"
  by (rule ceiling_unique) simp_all

lemma backHost_length: "getTotalLength (backHost m) a v = m"
  by (simp add: backHost_def)

lemma backHost_point:
  "getPointAtLength (backHost m) a v d = (if d \<le> m / 2 then max d 0 else m - min d m, 0)"
  by (simp add: backHost_def)

text \<open>Runs of \<open>parseInt\<close> and of the split, and the guard of the viewBox branch.\<close>

lemma parseInt_0: "parseInt ''0'' = Some 0" by code_simp
lemma parseInt_10: "parseInt ''10'' = Some 10" by code_simp
lemma parseInt_100px: "parseInt ''100px'' = Some 100" by code_simp
lemma parseInt_50: "parseInt '' -50.7'' = Some (- 50)" by code_simp
lemma parseInt_null: "parseInt ''null'' = None" by code_simp
lemma parseInt_pct: "parseInt ''auto'' = None" by code_simp
lemma split_ws_ex: "split_ws ''0 0  100 50'' = [''0'', ''0'', ''100'', ''50'']" by code_simp
lemma split_ws_ex2: "split_ws '' a '' = ['''', ''a'', '''']" by code_simp

lemma viewBox_guard_always: "typeof_string (replace_0_9 viewBox) \<noteq> TNumber"
  by (simp add: typeof_string_def)


text \<open>
  Since the guard compares the \<^verbatim>\<open>typeof\<close> of a string with \<^verbatim>\<open>'number'\<close>, the function
  yields \<^verbatim>\<open>false\<close> whenever it reaches the viewBox, and the numbers of \<^verbatim>\<open>parseInt\<close>
  otherwise.
\<close>

lemma getSVGDimensions_cases:
  "getSVGDimensions node = NoDims \<or> (\<exists>w ht. getSVGDimensions node = Dims (DNum w) (DNum ht))"
  by (auto simp add: getSVGDimensions_def Let_def viewBox_guard_always split: option.splits)

text \<open>The first and the closing coordinate of a path, and the properties as a lookup.\<close>

lemma coordOf_first:
  "coordOf (p0 # ps) p0 = (js_nth (seg_values p0) 0, js_nth (seg_values p0) 1)"
  by (cases p0) (simp_all add: coordOf_def)

lemma coordOf_Z:
  "coordOf (p0 # ps) Z = (js_nth (seg_values p0) 0, js_nth (seg_values p0) 1)"
  by (simp add: coordOf_def)

lemma mappedCoordsOf_ring:
  assumes "pathData \<noteq> []" and "last pathData = Z"
  shows "mappedCoordsOf h bounds svgDims pathData \<noteq> [] \<and>
         last (mappedCoordsOf h bounds svgDims pathData) = hd (mappedCoordsOf h bounds svgDims pathData) \<and>
         hd (mappedCoordsOf h bounds svgDims pathData) =
           (mapX bounds (dimsWidth h svgDims) (js_nth (seg_values (hd pathData)) 0),
            mapY bounds (dimsHeight h svgDims) (js_nth (seg_values (hd pathData)) 1))"
proof -
  let ?g = "\<lambda>coord. (mapX bounds (dimsWidth h svgDims) (fst coord),
                     mapY bounds (dimsHeight h svgDims) (snd coord))"
  from assms(1) obtain p0 ps where pd: "pathData = p0 # ps" by (cases pathData) auto
  have m: "mappedCoordsOf h bounds svgDims pathData = map (\<lambda>s. ?g (coordOf pathData s)) pathData"
    by (simp add: mappedCoordsOf_def)
  have first: "coordOf pathData (hd pathData) =
      (js_nth (seg_values (hd pathData)) 0, js_nth (seg_values (hd pathData)) 1)"
    unfolding pd by (simp add: coordOf_first)
  have lst: "coordOf pathData (last pathData) = coordOf pathData (hd pathData)"
    unfolding assms(2) first unfolding pd by (simp add: coordOf_Z)
  have "last (map (\<lambda>s. ?g (coordOf pathData s)) pathData) = ?g (coordOf pathData (last pathData))"
    using assms(1) by (rule last_map)
  moreover have "hd (map (\<lambda>s. ?g (coordOf pathData s)) pathData) = ?g (coordOf pathData (hd pathData))"
    using assms(1) by (rule hd_map)
  ultimately show ?thesis
    unfolding m using assms(1) by (simp add: lst first)
qed

lemma scale_100: "scaleLinear (0, Some 100) (r0, r1) (Some v) = Some (r0 + (r1 - r0) * (v / 100))"
  by (simp add: scaleLinear_def)


lemma collect_fold:
  "foldl (\<lambda>props attr.
              (case getAttribute elem attr of
                 None \<Rightarrow> props
               | Some v \<Rightarrow>
                   if v \<noteq> [] then (if attr = ''__proto__'' then props else props(attr \<mapsto> v))
                   else props)) m attributes name =
   (if name \<in> set attributes \<and> name \<noteq> ''__proto__'' \<and>
       (\<exists>v. getAttribute elem name = Some v \<and> v \<noteq> [])
    then getAttribute elem name else m name)"
  by (induction attributes arbitrary: m) (auto split: option.splits)

lemma collectProperties_lookup:
  "collectProperties elem attributes name =
   (if name \<in> set attributes \<and> name \<noteq> ''__proto__'' \<and>
       (\<exists>v. getAttribute elem name = Some v \<and> v \<noteq> [])
    then getAttribute elem name else None)"
  unfolding collectProperties_def by (simp add: collect_fold)

lemma mappedCoordsOf_items:
  assumes "pathData \<noteq> []"
  shows "mappedCoordsOf h bounds svgDims pathData =
         map (\<lambda>pathitem. if pathitem = Z then projectValues h bounds svgDims (hd pathData)
                          else projectValues h bounds svgDims pathitem) pathData"
proof -
  from assms obtain p0 ps where pd: "pathData = p0 # ps" by (cases pathData) auto
  have "coordOf pathData s =
        (if s = Z then (js_nth (seg_values (hd pathData)) 0, js_nth (seg_values (hd pathData)) 1)
         else (js_nth (seg_values s) 0, js_nth (seg_values s) 1))" for s
    unfolding pd by (simp add: coordOf_def)
  then show ?thesis
    by (simp add: mappedCoordsOf_def projectValues_def)
qed


text \<open>The store: every step of the flattener only adds cells and extends its own array.\<close>

lemma grows_refl: "cells st a = Some (ArrObj out) \<Longrightarrow> grows a st st []"
  by (simp add: grows_def)

lemma grows_trans:
  "grows a st st1 new1 \<Longrightarrow> grows a st1 st2 new2 \<Longrightarrow> grows a st st2 (new1 @ new2)"
  by (auto simp add: grows_def)

lemma grows_push:
  "cells st a = Some (ArrObj out) \<Longrightarrow> grows a st (push a r st) [r]"
  by (simp add: grows_def push_def)

lemma grows_alloc_push:
  assumes "cells st a = Some (ArrObj out)" and "a < fresh st"
  shows "grows a st (push a (fst (alloc ob st)) (snd (alloc ob st))) [fresh st]"
  using assms by (auto simp add: grows_def push_def alloc_def)

lemma grows_keeps:
  "grows a st st' new \<Longrightarrow> a < fresh st \<Longrightarrow> a < fresh st' \<and> (\<exists>out. cells st' a = Some (ArrObj out))"
  by (auto simp add: grows_def)







lemma sampleLoopS_example:
  "sampleLoopS p (Num 10) 10 (Num 10) a st =
     Some (Inr (push a (fst (alloc (SegObj (pointSeg (p 10))) st))
                       (snd (alloc (SegObj (pointSeg (p 10))) st))))"
  by (subst sampleLoopS.simps, simp, subst sampleLoopS.simps, simp)

lemma example_run:
  "\<exists>st'. reduceOnStore lineHost 3 1 exampleStore = Some (Inr (4, st'))"
  by (simp add: reduceOnStore_def exampleStore_def alloc_def push_def segBodyS_def upt_0_3
      slice_last2_def lineHost_length lengthStepOf_def sampleLoopS_example Let_def)

text \<open>
  The two views agree: when a run on the store returns, the function on lists returns
  for the segments the input array points to, and what it returns are the segments the
  output array points to.
\<close>

lemma pointsTo_grows:
  assumes "grows a st st' new" and "pointsTo st rs segs" and "\<forall>r \<in> set rs. r < fresh st \<and> r \<noteq> a"
  shows "pointsTo st' rs segs"
  using assms(2,3) unfolding pointsTo_def
proof (induction rs segs rule: list_all2_induct)
  case Nil
  show ?case by simp
next
  case (Cons r rs s segs)
  with assms(1) show ?case by (simp add: grows_def)
qed

lemma lastRel_grows:
  "grows a st st' new \<Longrightarrow> lastRel st a lastRef lastSeg \<Longrightarrow> lastRel st' a lastRef lastSeg"
  by (auto simp add: grows_def lastRel_def split: option.splits)

lemma sampleLoopS_refines:
  assumes ret: "sampleLoopS p step len d a st = Some res"
  shows "\<forall>out st'. a < fresh st \<longrightarrow> cells st a = Some (ArrObj out) \<longrightarrow> res = Inr st' \<longrightarrow>
           (\<exists>new news. grows a st st' new \<and> pointsTo st' new news \<and>
              (\<forall>r \<in> set new. r < fresh st' \<and> r \<noteq> a) \<and>
              (\<forall>acc. sampleLoop p step len d acc = Some (Inr (acc @ news))))"
  using ret
proof (induction rule: sampleLoopS.raw_induct[rotated 1, consumes 1, case_names body])
  case (body f p step len d a st res)
  show ?case
  proof (intro allI impI)
    fix out st'
    assume a: "a < fresh st" and c: "cells st a = Some (ArrObj out)" and r: "res = Inr st'"
    show "\<exists>new news. grows a st st' new \<and> pointsTo st' new news \<and>
              (\<forall>r \<in> set new. r < fresh st' \<and> r \<noteq> a) \<and>
              (\<forall>acc. sampleLoop p step len d acc = Some (Inr (acc @ news)))"
    proof (cases "js_le d len")
      case False
      with body(2) r have "st' = st" by simp
      moreover have "\<forall>acc. sampleLoop p step len d acc = Some (Inr (acc @ []))"
        using False by (subst sampleLoop.simps) simp
      moreover have "pointsTo st [] []" by (simp add: pointsTo_def)
      ultimately show ?thesis using grows_refl[OF c] by fastforce
    next
      case True
      with body(2) r obtain n where d: "d = Num n" by (cases d) auto
      let ?s = "pointSeg (p (real_of_int n))"
      let ?st1 = "push a (fst (alloc (SegObj ?s) st)) (snd (alloc (SegObj ?s) st))"
      from body(2) True d have rec: "f p step len (js_add d step) a ?st1 = Some res" by simp
      have g1: "grows a st ?st1 [fresh st]" by (rule grows_alloc_push[OF c a])
      from grows_keeps[OF g1 a] obtain out1 where
        a1: "a < fresh ?st1" and c1: "cells ?st1 a = Some (ArrObj out1)" by blast
      have cell: "cells ?st1 (fresh st) = Some (SegObj ?s)"
        using a c by (simp add: push_def alloc_def)
      have f1: "fresh ?st1 = Suc (fresh st)" using c by (simp add: push_def alloc_def)
      from body(1)[OF rec] a1 c1 r obtain new2 news2 where
        g2: "grows a ?st1 st' new2" and p2: "pointsTo st' new2 news2"
        and fr2: "\<forall>r \<in> set new2. r < fresh st' \<and> r \<noteq> a"
        and run2: "\<forall>acc. sampleLoop p step len (js_add d step) acc = Some (Inr (acc @ news2))"
        by blast
      have g: "grows a st st' ([fresh st] @ new2)" using g1 g2 by (rule grows_trans)
      have keep: "cells st' (fresh st) = Some (SegObj ?s)"
        using g2 cell a by (simp add: grows_def f1)
      have le: "fresh ?st1 \<le> fresh st'" using g2 by (simp add: grows_def)
      have p: "pointsTo st' (fresh st # new2) (?s # news2)"
        using p2 keep by (simp add: pointsTo_def)
      have fr: "\<forall>r \<in> set (fresh st # new2). r < fresh st' \<and> r \<noteq> a"
        using fr2 le a by (auto simp add: f1)
      have run: "\<forall>acc. sampleLoop p step len d acc = Some (Inr (acc @ ?s # news2))"
      proof
        fix acc
        have "sampleLoop p step len d acc = sampleLoop p step len (js_add d step) (acc @ [?s])"
          using True d by (subst sampleLoop.simps) simp
        with run2 show "sampleLoop p step len d acc = Some (Inr (acc @ ?s # news2))" by simp
      qed
      from g p fr run show ?thesis by (intro exI[of _ "fresh st # new2"] exI[of _ "?s # news2"]) simp
    qed
  qed
qed


lemma segBodyS_refines:
  assumes ret: "segBodyS h c a (st, lastRef) r = Some (Inr (st', lastRef'))"
    and a: "a < fresh st" and ca: "cells st a = Some (ArrObj out)"
    and r: "cells st r = Some (SegObj seg)" "r < fresh st" "r \<noteq> a"
    and lr: "lastRel st a lastRef lastSeg"
  shows "\<exists>new news lastSeg'. grows a st st' new \<and> pointsTo st' new news \<and>
           (\<forall>r' \<in> set new. r' < fresh st' \<and> r' \<noteq> a) \<and>
           lastRel st' a lastRef' lastSeg' \<and>
           (\<forall>acc. segBody h c (acc, lastSeg) seg = Some (Inr (acc @ news, lastSeg')))"
proof (cases "isC seg")
  case False
  with ret r have st': "st' = push a r st" and l': "lastRef' = Some r"
    by (simp_all add: segBodyS_def)
  have g: "grows a st st' [r]" unfolding st' by (rule grows_push[OF ca])
  have le: "fresh st \<le> fresh st'" using g by (simp add: grows_def)
  have keep: "cells st' r = Some (SegObj seg)" using g r by (simp add: grows_def)
  have "pointsTo st' [r] [seg]" using keep by (simp add: pointsTo_def)
  moreover have "\<forall>r' \<in> set [r]. r' < fresh st' \<and> r' \<noteq> a" using r le by simp
  moreover have "lastRel st' a lastRef' (Some seg)"
    using keep r le by (simp add: lastRel_def l')
  moreover have "\<forall>acc. segBody h c (acc, lastSeg) seg = Some (Inr (acc @ [seg], Some seg))"
    using False by (simp add: segBody_other)
  ultimately show ?thesis using g by blast
next
  case True
  from ret r True obtain lref where lref: "lastRef = Some lref"
    by (cases lastRef) (auto simp add: segBodyS_def)
  with lr obtain ls where ls: "lastSeg = Some ls" "cells st lref = Some (SegObj ls)"
    by (auto simp add: lastRel_def)
  define coords where "coords = slice_last2 (seg_values ls)"
  define len where "len = \<lceil>getTotalLength h coords (seg_values seg)\<rceil>"
  define lstep where "lstep = lengthStepOf len c"
  show ?thesis
  proof (cases "len = 0 \<or> js_not lstep")
    case skip: True
    with ret r True lref ls have "st' = st" "lastRef' = lastRef"
      by (simp_all add: segBodyS_def Let_def coords_def len_def lstep_def)
    moreover have "\<forall>acc. segBody h c (acc, lastSeg) seg = Some (Inr (acc @ [], lastSeg))"
      using skip True ls by (simp add: segBody_def Let_def coords_def len_def lstep_def)
    moreover have "pointsTo st [] []" by (simp add: pointsTo_def)
    ultimately show ?thesis using grows_refl[OF ca] lr by fastforce
  next
    case go: False
    let ?e = "L (seg_values seg ! 4) (seg_values seg ! 5)"
    from ret r True lref ls go obtain st1 where
      loop: "sampleLoopS (getPointAtLength h coords (seg_values seg)) lstep len lstep a st = Some (Inr st1)"
      and st': "st' = push a (fst (alloc (SegObj ?e) st1)) (snd (alloc (SegObj ?e) st1))"
      and l': "lastRef' = Some r"
      by (auto simp add: segBodyS_def Let_def coords_def len_def lstep_def
          split: option.splits sum.splits)
    from sampleLoopS_refines[OF loop] a ca obtain new1 news1 where
      g1: "grows a st st1 new1" and p1: "pointsTo st1 new1 news1"
      and fr1: "\<forall>r \<in> set new1. r < fresh st1 \<and> r \<noteq> a"
      and run1: "\<forall>acc. sampleLoop (getPointAtLength h coords (seg_values seg)) lstep len lstep acc =
                    Some (Inr (acc @ news1))"
      by blast
    from grows_keeps[OF g1 a] obtain out1 where
      a1: "a < fresh st1" and c1: "cells st1 a = Some (ArrObj out1)" by blast
    have g2: "grows a st1 st' [fresh st1]" unfolding st' by (rule grows_alloc_push[OF c1 a1])
    have g: "grows a st st' (new1 @ [fresh st1])" using g1 g2 by (rule grows_trans)
    have f': "fresh st' = Suc (fresh st1)" unfolding st' using c1 by (simp add: push_def alloc_def)
    have cell: "cells st' (fresh st1) = Some (SegObj ?e)"
      unfolding st' using a1 c1 by (simp add: push_def alloc_def)
    have p1': "pointsTo st' new1 news1" by (rule pointsTo_grows[OF g2 p1 fr1])
    have p: "pointsTo st' (new1 @ [fresh st1]) (news1 @ [?e])"
      using p1' cell by (simp add: pointsTo_def list_all2_appendI)
    have fr: "\<forall>r' \<in> set (new1 @ [fresh st1]). r' < fresh st' \<and> r' \<noteq> a"
      using fr1 a1 by (auto simp add: f')
    have keep: "cells st' r = Some (SegObj seg)" using g r by (simp add: grows_def)
    have le: "fresh st \<le> fresh st'" using g by (simp add: grows_def)
    have last': "lastRel st' a lastRef' (Some seg)"
      using keep r le by (simp add: lastRel_def l')
    have run: "\<forall>acc. segBody h c (acc, lastSeg) seg = Some (Inr (acc @ news1 @ [?e], Some seg))"
      using go True ls run1 by (simp add: segBody_def Let_def coords_def len_def lstep_def)
    from g p fr last' run show ?thesis
      by (intro exI[of _ "new1 @ [fresh st1]"] exI[of _ "news1 @ [?e]"] exI[of _ "Some seg"]) simp
  qed
qed

lemma forEachS_refines:
  assumes "forEachS h c arr a ks (st, lastRef) = Some (Inr (st', lastRef'))"
    and "a < fresh st" and "cells st a = Some (ArrObj out)"
    and "arr < fresh st" and "arr \<noteq> a" and "cells st arr = Some (ArrObj rs)"
    and "\<forall>r \<in> set rs. r < fresh st \<and> r \<noteq> a"
    and "\<forall>k \<in> set ks. k < length rs"
    and "pointsTo st (map (\<lambda>k. rs ! k) ks) segs"
    and "lastRel st a lastRef lastSeg"
  shows "\<exists>new news. grows a st st' new \<and> pointsTo st' new news \<and>
           (\<forall>r \<in> set new. r < fresh st' \<and> r \<noteq> a) \<and>
           (\<forall>acc. forEachSeg h c segs (acc, lastSeg) = Some (Inr (acc @ news)))"
  using assms
proof (induction ks arbitrary: st lastRef lastSeg out segs)
  case Nil
  then have "st' = st" and "segs = []" by (simp_all add: pointsTo_def)
  moreover have "grows a st st []" using Nil.prems(3) by (rule grows_refl)
  moreover have "pointsTo st [] []" by (simp add: pointsTo_def)
  ultimately show ?case by fastforce
next
  case (Cons k ks)
  from Cons.prems(8) have k: "k < length rs" and ks: "\<forall>k \<in> set ks. k < length rs" by auto
  from Cons.prems(9) obtain seg segs' where segs: "segs = seg # segs'"
    and sk: "cells st (rs ! k) = Some (SegObj seg)"
    and ps: "pointsTo st (map (\<lambda>k. rs ! k) ks) segs'"
    by (auto simp add: pointsTo_def list_all2_Cons1)
  from k Cons.prems(7) have rk: "rs ! k < fresh st" "rs ! k \<noteq> a" by auto
  from Cons.prems(1,6) k obtain st1 last1 where
    body: "segBodyS h c a (st, lastRef) (rs ! k) = Some (Inr (st1, last1))"
    and rest: "forEachS h c arr a ks (st1, last1) = Some (Inr (st', lastRef'))"
    by (auto split: option.splits sum.splits)
  from segBodyS_refines[OF body Cons.prems(2,3) sk rk Cons.prems(10)] obtain new1 news1 lastSeg1 where
    g1: "grows a st st1 new1" and p1: "pointsTo st1 new1 news1"
    and fr1: "\<forall>r' \<in> set new1. r' < fresh st1 \<and> r' \<noteq> a"
    and l1: "lastRel st1 a last1 lastSeg1"
    and run1: "\<forall>acc. segBody h c (acc, lastSeg) seg = Some (Inr (acc @ news1, lastSeg1))"
    by blast
  from grows_keeps[OF g1 Cons.prems(2)] obtain out1 where
    a1: "a < fresh st1" and c1: "cells st1 a = Some (ArrObj out1)" by blast
  from g1 have le: "fresh st \<le> fresh st1" by (simp add: grows_def)
  from g1 Cons.prems(4,5,6) have arr1: "cells st1 arr = Some (ArrObj rs)" by (simp add: grows_def)
  have arrlt: "arr < fresh st1" using Cons.prems(4) le by simp
  have rs1: "\<forall>r \<in> set rs. r < fresh st1 \<and> r \<noteq> a" using Cons.prems(7) le by auto
  have inrs: "\<forall>r \<in> set (map (\<lambda>k. rs ! k) ks). r < fresh st \<and> r \<noteq> a"
    using ks Cons.prems(7) by auto
  have ps1: "pointsTo st1 (map (\<lambda>k. rs ! k) ks) segs'" by (rule pointsTo_grows[OF g1 ps inrs])
  from Cons.IH[OF rest a1 c1 arrlt Cons.prems(5) arr1 rs1 ks ps1 l1] obtain new2 news2 where
    g2: "grows a st1 st' new2" and p2: "pointsTo st' new2 news2"
    and fr2: "\<forall>r \<in> set new2. r < fresh st' \<and> r \<noteq> a"
    and run2: "\<forall>acc. forEachSeg h c segs' (acc, lastSeg1) = Some (Inr (acc @ news2))"
    by blast
  have g: "grows a st st' (new1 @ new2)" using g1 g2 by (rule grows_trans)
  have le2: "fresh st1 \<le> fresh st'" using g2 by (simp add: grows_def)
  have p1': "pointsTo st' new1 news1" by (rule pointsTo_grows[OF g2 p1 fr1])
  have p: "pointsTo st' (new1 @ new2) (news1 @ news2)"
    using p1' p2 by (simp add: pointsTo_def list_all2_appendI)
  have fr: "\<forall>r \<in> set (new1 @ new2). r < fresh st' \<and> r \<noteq> a"
    using fr1 fr2 le2 by auto
  have run: "\<forall>acc. forEachSeg h c segs (acc, lastSeg) = Some (Inr (acc @ news1 @ news2))"
    using run1 run2 by (simp add: segs)
  from g p fr run show ?case
    by (intro exI[of _ "new1 @ new2"] exI[of _ "news1 @ news2"]) simp
qed

lemma reduceOnStore_refines:
  assumes ret: "reduceOnStore h pathSegList complexity st = Some (Inr (newSegs, st'))"
    and arr: "pathSegList < fresh st"
    and input: "cells st pathSegList = Some (ArrObj input)"
    and refs: "\<forall>r \<in> set input. r < fresh st"
    and segs: "pointsTo st input segs"
  shows "\<exists>out outSegs. cells st' newSegs = Some (ArrObj out) \<and> pointsTo st' out outSegs \<and>
           reducePathSegCurveComplexity h segs complexity = Some (Inr outSegs)"
proof -
  let ?st1 = "snd (alloc (ArrObj []) st)"
  have ns: "fst (alloc (ArrObj []) st) = fresh st" by (simp add: alloc_def)
  have f1: "fresh ?st1 = Suc (fresh st)" by (simp add: alloc_def)
  have same1: "\<And>r. r < fresh st \<Longrightarrow> cells ?st1 r = cells st r" by (simp add: alloc_def)
  have c1: "cells ?st1 (fresh st) = Some (ArrObj [])" by (simp add: alloc_def)
  have in1: "cells ?st1 pathSegList = Some (ArrObj input)" using same1[OF arr] input by simp
  from ret in1 obtain last' where
    run: "forEachS h complexity pathSegList (fresh st) [0..<length input] (?st1, None) = Some (Inr (st', last'))"
    and n: "newSegs = fresh st"
    by (auto simp add: reduceOnStore_def Let_def ns split: option.splits sum.splits)
  have m: "map (\<lambda>k. input ! k) [0..<length input] = input" by (rule map_nth)
  have segs1: "pointsTo ?st1 input segs"
    using segs refs unfolding pointsTo_def
    by (induction input segs rule: list_all2_induct) (simp_all add: same1)
  have "\<exists>new news. grows (fresh st) ?st1 st' new \<and> pointsTo st' new news \<and>
           (\<forall>r \<in> set new. r < fresh st' \<and> r \<noteq> fresh st) \<and>
           (\<forall>acc. forEachSeg h complexity segs (acc, None) = Some (Inr (acc @ news)))"
  proof (rule forEachS_refines[OF run _ c1 _ _ in1])
    show "fresh st < fresh ?st1" by (simp add: f1)
    show "pathSegList < fresh ?st1" using arr by (simp add: f1)
    show "pathSegList \<noteq> fresh st" using arr by simp
    show "\<forall>r \<in> set input. r < fresh ?st1 \<and> r \<noteq> fresh st" using refs by (auto simp add: f1)
    show "\<forall>k \<in> set [0..<length input]. k < length input" by simp
    show "pointsTo ?st1 (map (\<lambda>k. input ! k) [0..<length input]) segs" unfolding m by (rule segs1)
    show "lastRel ?st1 (fresh st) None None" by (simp add: lastRel_def)
  qed
  then obtain new news where g: "grows (fresh st) ?st1 st' new" and p: "pointsTo st' new news"
    and r: "\<forall>acc. forEachSeg h complexity segs (acc, None) = Some (Inr (acc @ news))" by blast
  from g c1 have "cells st' newSegs = Some (ArrObj new)" by (simp add: grows_def n)
  moreover from r have "reducePathSegCurveComplexity h segs complexity = Some (Inr news)"
    by (simp add: reducePathSegCurveComplexity_def)
  ultimately show ?thesis using p by blast
qed













section \<open>Failures of the flattener\<close>

text \<open>
  C5: for every input list whose first segment is a curve, so that no segment precedes
  it and no start anchor exists, the flattener fails, whatever the complexity and the
  host: reading \<^verbatim>\<open>lastSeg.values\<close> of the undefined \<^verbatim>\<open>lastSeg\<close> raises a TypeError, which
  leaves \<^verbatim>\<open>forEach\<close> and the function; no anchor is guessed and nothing is returned.
\<close>

theorem curve_without_anchor_fails:
  "reducePathSegCurveComplexity h (C x1 y1 x2 y2 x y # rest) complexity = Some (Inl TypeError)"
  by (simp add: reducePathSegCurveComplexity_def segBody_def)








section \<open>The segments of one curve\<close>

text \<open>
  C1: "for every cubic curve with a start anchor and every complexity N \<ge> 1 the
  flattener emits exactly N new LineTo segments for that curve, and the last of them is
  the curve's declared end point". The README and the comments of the function say the
  same: a complexity of 3 breaks a curve into 3 sections, and "the loop ends before it
  gets to the final point". The loop's test is \<^verbatim>\<open>d <= len\<close>, though, and the step is
  rounded up twice. For the straight curve \<^verbatim>\<open>M 0,0 C 0,0 9.5,0 9.5,0\<close> of length 9.5 and
  complexity 5 the rounded length is 10 and the step 2: the loop samples at 2, 4, 6, 8
  and 10, the last of which is the end of the path already, and the end point is pushed
  once more. The curve yields six segments, not five. (The last segment is the declared
  end point, here and always: it is copied from \<^verbatim>\<open>seg.values[4]\<close> and \<^verbatim>\<open>seg.values[5]\<close>.)
\<close>

theorem six_segments_for_complexity_five:
  "reducePathSegCurveComplexity lineHost [M 0 0, C 0 0 (19/2) 0 (19/2) 0] 5 =
     Some (Inr [M 0 0, L 2 0, L 4 0, L 6 0, L 8 0, L (19/2) 0, L (19/2) 0])"
proof -
  have "segBody lineHost 5 ([M 0 0], Some (M 0 0)) (C 0 0 (19/2) 0 (19/2) 0) =
     Some (Inr ([M 0 0] @ map (\<lambda>i. pointSeg (getPointAtLength lineHost [0, 0] [0, 0, 19/2, 0, 19/2, 0]
                  (real_of_int (int (Suc i) * 2)))) [0..<5]
        @ [L (19/2) 0], Some (C 0 0 (19/2) 0 (19/2) 0)))"
    by (rule segBody_curve[where len = 10]) (simp_all add: slice_last2_def lineHost_length)
  then show ?thesis
    by (simp add: reducePathSegCurveComplexity_def segBody_other upt_0_5 lineHost_point pointSeg_def)
qed


section \<open>Zero-length curves\<close>

text \<open>
  C6, the claim as stated: "for every curve segment whose start anchor equals its end
  point (total arc length below a small epsilon) the flattener emits zero new segments".
  The code never compares the anchor with the end point, and it has no epsilon; it tests
  whether the rounded-up length of the path is zero. The curve \<^verbatim>\<open>M 0,0 C 10,0 10,0 0,0\<close>
  ends where it starts and has length 15: with complexity 2 it is flattened into two
  lines like any other curve. The curve \<^verbatim>\<open>M 0,0 C 0.000001,0 0.000001,0 0,0\<close> ends where
  it starts and has length 0.0000015, which rounds up to 1: it yields two segments too,
  both at its end point.
\<close>

theorem closed_curve_counterexample:
  "reducePathSegCurveComplexity (backHost 15) [M 0 0, C 10 0 10 0 0 0] 2 =
     Some (Inr [M 0 0, L 7 0, L 0 0]) \<and>
   reducePathSegCurveComplexity (backHost (3 / 2000000))
       [M 0 0, C (1 / 1000000) 0 (1 / 1000000) 0 0 0] 2 =
     Some (Inr [M 0 0, L 0 0, L 0 0])"
proof -
  have "segBody (backHost 15) 2 ([M 0 0], Some (M 0 0)) (C 10 0 10 0 0 0) =
     Some (Inr ([M 0 0] @
        map (\<lambda>i. pointSeg (getPointAtLength (backHost 15) [0, 0] [10, 0, 10, 0, 0, 0]
                  (real_of_int (int (Suc i) * 8)))) [0..<1]
        @ [L 0 0], Some (C 10 0 10 0 0 0)))"
    by (rule segBody_curve[where len = 15]) (simp_all add: slice_last2_def backHost_length)
  then have big: "reducePathSegCurveComplexity (backHost 15) [M 0 0, C 10 0 10 0 0 0] 2 =
     Some (Inr [M 0 0, L 7 0, L 0 0])"
    by (simp add: reducePathSegCurveComplexity_def segBody_other backHost_point pointSeg_def)
  have "segBody (backHost (3 / 2000000)) 2 ([M 0 0], Some (M 0 0))
          (C (1 / 1000000) 0 (1 / 1000000) 0 0 0) =
     Some (Inr ([M 0 0] @
        map (\<lambda>i. pointSeg (getPointAtLength (backHost (3 / 2000000)) [0, 0]
                  [1 / 1000000, 0, 1 / 1000000, 0, 0, 0]
                  (real_of_int (int (Suc i) * 1)))) [0..<1]
        @ [L 0 0], Some (C (1 / 1000000) 0 (1 / 1000000) 0 0 0)))"
    by (rule segBody_curve[where len = 1])
      (simp_all add: slice_last2_def backHost_length ceiling_half)
  then have small: "reducePathSegCurveComplexity (backHost (3 / 2000000))
       [M 0 0, C (1 / 1000000) 0 (1 / 1000000) 0 0 0] 2 =
     Some (Inr [M 0 0, L 0 0, L 0 0])"
    by (simp add: reducePathSegCurveComplexity_def segBody_other backHost_point pointSeg_def)
  from big small show ?thesis by simp
qed


text \<open>
  C6, amended: for every curve whose measured total length rounds up to zero
  (\<^verbatim>\<open>Math.ceil(tmpPath.getTotalLength())\<close> is 0, as for a curve whose anchor, control
  points and end point coincide), and for every complexity, the flattener emits no
  segment for that curve and raises nothing: the callback returns early, the segments
  collected so far and the anchor for the next curve stay as they were, and the pass
  goes on with the rest of the list.
\<close>

theorem zero_length_curve_skipped:
  assumes "\<lceil>getTotalLength h (slice_last2 (seg_values ls)) [x1, y1, x2, y2, x, y]\<rceil> = 0"
  shows "forEachSeg h complexity (C x1 y1 x2 y2 x y # rest) (newSegs, Some ls) =
         forEachSeg h complexity rest (newSegs, Some ls)"
  using assms by (simp add: segBody_skip)

theorem zero_length_curve_witness:
  "\<lceil>getTotalLength lineHost (slice_last2 (seg_values (M 5 5))) [5, 5, 5, 5, 5, 5]\<rceil> = 0 \<and>
   reducePathSegCurveComplexity lineHost [M 5 5, C 5 5 5 5 5 5, L 6 6] 5 = Some (Inr [M 5 5, L 6 6])"
proof -
  have len: "\<lceil>getTotalLength lineHost (slice_last2 (seg_values (M 5 5))) [5, 5, 5, 5, 5, 5]\<rceil> = 0"
    by (simp add: slice_last2_def lineHost_length)
  have "reducePathSegCurveComplexity lineHost (M 5 5 # C 5 5 5 5 5 5 # [L 6 6]) 5 =
        forEachSeg lineHost 5 (C 5 5 5 5 5 5 # [L 6 6]) ([M 5 5], Some (M 5 5))"
    by (rule reduce_first) simp
  also have "\<dots> = forEachSeg lineHost 5 [L 6 6] ([M 5 5], Some (M 5 5))"
    by (rule zero_length_curve_skipped[OF len])
  also have "\<dots> = Some (Inr [M 5 5, L 6 6])"
    by (simp add: segBody_other)
  finally show ?thesis using len by simp
qed


section \<open>Where the samples lie\<close>






section \<open>The dimensions of the drawing\<close>

text \<open>
  C2, the claim as stated: "declared width and height are used whenever both parse as
  positive finite numbers; otherwise the third and fourth component of the viewBox;
  and when neither source yields two positive finite numbers the resolution fails with
  MissingDimensions". The code tests no sign: for \<^verbatim>\<open>width="0"\<close>, \<^verbatim>\<open>height="10"\<close> and no
  viewBox, where the resolver of the specification fails, it returns the dimensions 0 by
  10.
\<close>

theorem zero_width_counterexample:
  "getSVGDimensions \<lparr> svgAttribute = [''width'' \<mapsto> ''0'', ''height'' \<mapsto> ''10''], querySelectorAll = [] \<rparr>
     = Dims (DNum 0) (DNum 10) \<and>
   spec_resolve (Some ''0'') (Some ''10'') None = MissingDimensions"
  by (simp add: getSVGDimensions_def parseIntAttr_def parseInt_0 parseInt_10 spec_resolve_def
      spec_positive_def spec_viewBox_def)


text \<open>
  C2, amended: whenever \<^verbatim>\<open>parseInt\<close> reads a number from both the declared width and the
  declared height (of any sign, fractions and units cut off), the dimensions are these
  two numbers; and when one of them is absent or not numeric and the viewBox attribute is
  absent or empty, the result is \<^verbatim>\<open>false\<close>, returned and not raised.
  (What happens with a viewBox that is present is not part of this statement.)
\<close>

theorem declared_dimensions_used:
  "(parseIntAttr (svgAttribute node ''width'') = Some w \<and>
    parseIntAttr (svgAttribute node ''height'') = Some ht
      \<longrightarrow> getSVGDimensions node = Dims (DNum w) (DNum ht)) \<and>
   ((parseIntAttr (svgAttribute node ''width'') = None \<or>
     parseIntAttr (svgAttribute node ''height'') = None) \<and>
    (svgAttribute node ''viewBox'' = None \<or> svgAttribute node ''viewBox'' = Some [])
      \<longrightarrow> getSVGDimensions node = NoDims)"
  by (auto simp add: getSVGDimensions_def Let_def)

theorem declared_dimensions_witness:
  "parseIntAttr (Some ''100px'') = Some 100 \<and> parseIntAttr (Some '' -50.7'') = Some (- 50) \<and>
   getSVGDimensions \<lparr> svgAttribute = [''width'' \<mapsto> ''100px'', ''height'' \<mapsto> '' -50.7''],
                      querySelectorAll = [] \<rparr> = Dims (DNum 100) (DNum (- 50)) \<and>
   parseIntAttr (Some ''auto'') = None \<and>
   getSVGDimensions \<lparr> svgAttribute = [''width'' \<mapsto> ''auto'', ''height'' \<mapsto> ''10''],
                      querySelectorAll = [] \<rparr> = NoDims"
  using declared_dimensions_used[of "\<lparr> svgAttribute = [''width'' \<mapsto> ''100px'', ''height'' \<mapsto> '' -50.7''],
                      querySelectorAll = [] \<rparr>" 100 "- 50"]
    declared_dimensions_used[of "\<lparr> svgAttribute = [''width'' \<mapsto> ''auto'', ''height'' \<mapsto> ''10''],
                      querySelectorAll = [] \<rparr>" 0 0]
  by (simp add: parseIntAttr_def parseInt_100px parseInt_50 parseInt_pct parseInt_10)


section \<open>The corners of the projection\<close>

text \<open>
  C3, the claim as stated: "for every bounds and every dimensions with finite numeric
  values, project([0, 0]) is [west, north] and project([width, height]) is [east,
  south]". The code accepts a declared width or height of 0. Then the far corner is the
  origin, and the scale of a domain of width zero yields the start of its range: for the
  bounds north 10, east 10, south 0, west 0 and the dimensions 0 by 0 the far corner is
  sent to [west, north] = [0, 10], not to [east, south] = [10, 0].
\<close>

theorem zero_dimensions_counterexample:
  "(mapX ((10, 10), (0, 0)) (Some 0) (Some 0), mapY ((10, 10), (0, 0)) (Some 0) (Some 0))
     = (Some 0, Some 10) \<and>
   (mapX ((10, 10), (0, 0)) (Some 0) (Some 0), mapY ((10, 10), (0, 0)) (Some 0) (Some 0))
     \<noteq> (Some 10, Some 0)"
  by (simp add: mapX_def mapY_def scaleLinear_def)

text \<open>
  C3, amended: for every bounds \<^verbatim>\<open>[[north, east], [south, west]]\<close> and every dimensions
  whose width and height are not zero, the projection sends the origin to [west, north]
  and the far corner [width, height] to [east, south]; each axis has its own linear,
  unclamped map, \<open>x \<mapsto> west + (east - west) * x / width\<close> and
  \<open>y \<mapsto> north + (south - north) * y / height\<close>, the vertical one with north at 0 and
  south at the height.
\<close>

theorem projection_corners:
  assumes "width \<noteq> 0" and "height \<noteq> 0"
  shows "mapX ((north, east), (south, west)) (Some width) (Some 0) = Some west \<and>
         mapY ((north, east), (south, west)) (Some height) (Some 0) = Some north \<and>
         mapX ((north, east), (south, west)) (Some width) (Some width) = Some east \<and>
         mapY ((north, east), (south, west)) (Some height) (Some height) = Some south \<and>
         mapX ((north, east), (south, west)) (Some width) (Some x) =
           Some (west + (east - west) * (x / width)) \<and>
         mapY ((north, east), (south, west)) (Some height) (Some y) =
           Some (north + (south - north) * (y / height))"
proof -
  have lin: "scaleLinear (0, Some d) (r0, r1) (Some v) = Some (r0 + (r1 - r0) * (v / d))"
    if "d \<noteq> 0" for d r0 r1 v :: real
  proof (cases "d < 0")
    case True
    then have "r1 + (r0 - r1) * ((v - d) / (0 - d)) = r0 + (r1 - r0) * (v / d)"
      by (simp add: field_simps)
    with True show ?thesis by (simp add: scaleLinear_def)
  next
    case False
    with that show ?thesis by (simp add: scaleLinear_def)
  qed
  show ?thesis using assms by (simp add: mapX_def mapY_def lin)
qed

theorem projection_corners_witness:
  "(100::real) \<noteq> 0 \<and> (50::real) \<noteq> 0 \<and>
   mapX ((10, 20), (0, 5)) (Some 100) (Some 0) = Some 5 \<and>
   mapY ((10, 20), (0, 5)) (Some 50) (Some 0) = Some 10 \<and>
   mapX ((10, 20), (0, 5)) (Some 100) (Some 100) = Some 20 \<and>
   mapY ((10, 20), (0, 5)) (Some 50) (Some 50) = Some 0 \<and>
   mapX ((10, 20), (0, 5)) (Some 100) (Some 200) = Some 35 \<and>
   mapY ((10, 20), (0, 5)) (Some 50) (Some 25) = Some 5"
  using projection_corners[of 100 50 10 20 0 5 200 25] by simp


section \<open>The features\<close>

text \<open>
  C8: for every element that is not a polyline and whose flattened path is not empty and
  ends with a Z, the feature is a Polygon with one ring, and the ring has one coordinate
  for each segment of the path, in order: for a Z the projected first two values of the
  first segment of the path, for any other segment its own projected first two values.
  So the last coordinate of the ring, the one of the closing Z, is its first coordinate:
  the projection of the path's first recorded coordinate.
\<close>

theorem closed_path_ring:
  assumes "reducePathSegCurveComplexity h (getPathData elem) complexity = Some (Inr pathData)"
    and "pathData \<noteq> []" and "last pathData = Z"
    and "tagName elem \<noteq> ''polyline''"
  shows "\<exists>ring. elemFeature h bounds svgDims complexity attributes elem =
             Some (Inr \<lparr> properties = collectProperties elem attributes,
                           geometry = Polygon [ring] \<rparr>) \<and>
           ring = map (\<lambda>pathitem. if pathitem = Z
                                    then projectValues h bounds svgDims (hd pathData)
                                    else projectValues h bounds svgDims pathitem) pathData \<and>
           length ring = length pathData \<and>
           last ring = projectValues h bounds svgDims (hd pathData) \<and>
           hd ring = projectValues h bounds svgDims (hd pathData) \<and>
           last ring = hd ring"
proof -
  let ?f = "\<lambda>pathitem. if pathitem = Z then projectValues h bounds svgDims (hd pathData)
                         else projectValues h bounds svgDims pathitem"
  have m: "mappedCoordsOf h bounds svgDims pathData = map ?f pathData"
    by (rule mappedCoordsOf_items[OF assms(2)])
  have l: "last (map ?f pathData) = ?f (last pathData)" using assms(2) by (rule last_map)
  have f: "hd (map ?f pathData) = ?f (hd pathData)" using assms(2) by (rule hd_map)
  have lv: "last (map ?f pathData) = projectValues h bounds svgDims (hd pathData)"
    unfolding l assms(3) by simp
  have fv: "hd (map ?f pathData) = projectValues h bounds svgDims (hd pathData)"
    unfolding f by simp
  have e: "elemFeature h bounds svgDims complexity attributes elem =
             Some (Inr \<lparr> properties = collectProperties elem attributes,
                           geometry = Polygon [map ?f pathData] \<rparr>)"
    using assms(1,4) by (simp add: elemFeature_def m)
  show ?thesis
    by (rule exI[of _ "map ?f pathData"]) (simp add: e lv fv del: last_map hd_map)
qed

theorem closed_path_ring_witness:
  "reducePathSegCurveComplexity lineHost [M 0 0, L 100 0, L 100 100, Z] 5
     = Some (Inr [M 0 0, L 100 0, L 100 100, Z]) \<and>
   [M 0 0, L 100 0, L 100 100, Z] \<noteq> [] \<and> last [M 0 0, L 100 0, L 100 100, Z] = Z \<and>
   ''path'' \<noteq> ''polyline'' \<and>
   elemFeature lineHost ((10, 10), (0, 0)) (Dims (DNum 100) (DNum 100)) 5 []
              \<lparr> tagName = ''path'', getAttribute = Map.empty,
                getPathData = [M 0 0, L 100 0, L 100 100, Z] \<rparr> =
     Some (Inr \<lparr> properties = Map.empty,
                   geometry = Polygon [[(Some 0, Some 10), (Some 10, Some 10),
                                         (Some 10, Some 0), (Some 0, Some 10)]] \<rparr>)"
proof -
  let ?elem = "\<lparr> tagName = ''path'', getAttribute = Map.empty,
                getPathData = [M 0 0, L 100 0, L 100 100, Z] \<rparr>"
  have run: "reducePathSegCurveComplexity lineHost (getPathData ?elem) 5
     = Some (Inr [M 0 0, L 100 0, L 100 100, Z])"
    by (simp add: reducePathSegCurveComplexity_def segBody_other)
  have ne: "[M 0 0, L 100 0, L 100 100, Z] \<noteq> []" by simp
  have lz: "last [M 0 0, L 100 0, L 100 100, Z] = Z" by simp
  have tn: "tagName ?elem \<noteq> ''polyline''" by simp
  have pv: "projectValues lineHost ((10, 10), (0, 0)) (Dims (DNum 100) (DNum 100)) (L a b) =
              (Some (a / 10), Some (10 - b / 10))"
           "projectValues lineHost ((10, 10), (0, 0)) (Dims (DNum 100) (DNum 100)) (M a b) =
              (Some (a / 10), Some (10 - b / 10))" for a b
    by (simp_all add: projectValues_def mapX_def mapY_def dimsWidth_def dimsHeight_def
        dimNumber_def js_nth_def scale_100)
  from closed_path_ring[OF run ne lz tn, of "((10, 10), (0, 0))" "Dims (DNum 100) (DNum 100)" "[]"]
  have "elemFeature lineHost ((10, 10), (0, 0)) (Dims (DNum 100) (DNum 100)) 5 [] ?elem =
     Some (Inr \<lparr> properties = Map.empty,
                   geometry = Polygon [[(Some 0, Some 10), (Some 10, Some 10),
                                         (Some 10, Some 0), (Some 0, Some 10)]] \<rparr>)"
    by (auto simp add: pv collectProperties_def)
  with run show ?thesis by simp
qed



text \<open>
  C9, the claim as stated: "for every element and every list of requested attribute
  names, the properties of the emitted feature contain exactly those requested names that
  resolve to a non-empty value". The requested name \<^verbatim>\<open>__proto__\<close> is stored under no key:
  for an element with the attribute \<^verbatim>\<open>__proto__="x"\<close> and that one requested name the
  properties are empty.
\<close>

theorem proto_counterexample:
  "elemFeature lineHost ((10, 10), (0, 0)) (Dims (DNum 100) (DNum 100)) 5 [''__proto__'']
       \<lparr> tagName = ''path'', getAttribute = [''__proto__'' \<mapsto> ''x''],
         getPathData = [M 0 0] \<rparr> =
     Some (Inr \<lparr> properties = Map.empty, geometry = Polygon [[(Some 0, Some 10)]] \<rparr>)"
  by (simp add: elemFeature_def reducePathSegCurveComplexity_def segBody_other
      collectProperties_def mappedCoordsOf_def coordOf_def mapX_def mapY_def dimsWidth_def
      dimsHeight_def dimNumber_def js_nth_def scale_100)

text \<open>
  C9, amended: for every element and every list of requested attribute names, the
  properties of the emitted feature hold exactly the requested names other than
  \<^verbatim>\<open>__proto__\<close> whose attribute is present and not empty, each with the attribute's value;
  a name that was not requested, or whose attribute is absent or empty, has no entry, and
  no entry is an empty string.
\<close>

theorem properties_are_nonempty_requested:
  assumes "elemFeature h bounds svgDims complexity attributes elem = Some (Inr f)"
  shows "properties f name =
           (if name \<in> set attributes \<and> name \<noteq> ''__proto__'' \<and>
               (\<exists>v. getAttribute elem name = Some v \<and> v \<noteq> [])
            then getAttribute elem name else None) \<and>
         properties f name \<noteq> Some []"
proof -
  from assms have p: "properties f = collectProperties elem attributes"
    by (auto simp add: elemFeature_def Let_def split: option.splits sum.splits)
  show ?thesis
    unfolding p collectProperties_lookup by auto
qed

theorem properties_witness:
  "\<exists>f. elemFeature lineHost ((10, 10), (0, 0)) (Dims (DNum 100) (DNum 100)) 5
            [''id'', ''fill'', ''class'']
            \<lparr> tagName = ''path'',
              getAttribute = [''id'' \<mapsto> ''a1'', ''class'' \<mapsto> '''', ''stroke'' \<mapsto> ''red''],
              getPathData = [M 0 0, L 100 0] \<rparr> = Some (Inr f) \<and>
        properties f ''id'' = Some ''a1'' \<and> properties f ''class'' = None \<and>
        properties f ''fill'' = None \<and> properties f ''stroke'' = None"
proof -
  let ?elem = "\<lparr> tagName = ''path'',
              getAttribute = [''id'' \<mapsto> ''a1'', ''class'' \<mapsto> '''', ''stroke'' \<mapsto> ''red''],
              getPathData = [M 0 0, L 100 0] \<rparr>"
  have run: "reducePathSegCurveComplexity lineHost (getPathData ?elem) 5 = Some (Inr [M 0 0, L 100 0])"
    by (simp add: reducePathSegCurveComplexity_def segBody_other)
  obtain f where f: "elemFeature lineHost ((10, 10), (0, 0)) (Dims (DNum 100) (DNum 100)) 5
            [''id'', ''fill'', ''class''] ?elem = Some (Inr f)"
    using run by (simp add: elemFeature_def)
  have "properties f ''id'' = Some ''a1''"
    using properties_are_nonempty_requested[OF f, of "''id''"] by simp
  moreover have "properties f ''class'' = None"
    using properties_are_nonempty_requested[OF f, of "''class''"] by simp
  moreover have "properties f ''fill'' = None"
    using properties_are_nonempty_requested[OF f, of "''fill''"] by simp
  moreover have "properties f ''stroke'' = None"
    using properties_are_nonempty_requested[OF f, of "''stroke''"] by simp
  ultimately show ?thesis using f by blast
qed

section \<open>What the flattener leaves untouched\<close>




end
